theory Spec2Isabelle
  imports Complex_Main
begin

unbundle bit_operations_syntax

section \<open>JavaScript values\<close>

text \<open>
  The Led class of \<^verbatim>\<open>src/dist/moddable/gps/gps.js\<close> (lines 416 to 743) computes with
  JavaScript numbers. A number is modelled as an exact rational or NaN: rounding of
  IEEE doubles, the infinities and negative zero are outside the model. The arguments a
  caller may pass for a duration, a time or a callback are \<open>undefined\<close>, a function
  (named by a number, so that its invocations can be logged) or a number.
\<close>

datatype jsnum = Num rat | NaN

datatype jsval = Undefined | Function nat | Number jsnum

fun js_add :: "jsnum \<Rightarrow> jsnum \<Rightarrow> jsnum" where
  "js_add (Num a) (Num b) = Num (a + b)"
| "js_add _ _ = NaN"

fun js_sub :: "jsnum \<Rightarrow> jsnum \<Rightarrow> jsnum" where
  "js_sub (Num a) (Num b) = Num (a - b)"
| "js_sub _ _ = NaN"

fun js_mul :: "jsnum \<Rightarrow> jsnum \<Rightarrow> jsnum" where
  "js_mul (Num a) (Num b) = Num (a * b)"
| "js_mul _ _ = NaN"

text \<open>
  A quotient by zero is an infinity or NaN in JavaScript; the model has no infinities
  and returns NaN there. \<open>animate\<close> replaces a zero duration by 1000 before it arms
  the timer, so the only division of the class never takes that branch
  (lemma \<open>animate_duration_nonzero\<close>).
\<close>

fun js_div :: "jsnum \<Rightarrow> jsnum \<Rightarrow> jsnum" where
  "js_div (Num a) (Num b) = (if b = 0 then NaN else Num (a / b))"
| "js_div _ _ = NaN"

text \<open>Comparisons with NaN are false; \<open>===\<close> on NaN is false.\<close>

fun js_lt :: "jsnum \<Rightarrow> jsnum \<Rightarrow> bool" where
  "js_lt (Num a) (Num b) = (a < b)"
| "js_lt _ _ = False"

fun js_gt :: "jsnum \<Rightarrow> jsnum \<Rightarrow> bool" where
  "js_gt (Num a) (Num b) = (a > b)"
| "js_gt _ _ = False"

fun js_le :: "jsnum \<Rightarrow> jsnum \<Rightarrow> bool" where
  "js_le (Num a) (Num b) = (a \<le> b)"
| "js_le _ _ = False"

fun js_eq :: "jsnum \<Rightarrow> jsnum \<Rightarrow> bool" where
  "js_eq (Num a) (Num b) = (a = b)"
| "js_eq _ _ = False"

text \<open>Truthiness: \<open>0\<close>, NaN and \<open>undefined\<close> are falsy.\<close>

fun truthy_num :: "jsnum \<Rightarrow> bool" where
  "truthy_num (Num a) = (a \<noteq> 0)"
| "truthy_num NaN = False"

fun truthy :: "jsval \<Rightarrow> bool" where
  "truthy Undefined = False"
| "truthy (Function f) = True"
| "truthy (Number n) = truthy_num n"

fun ToNumber :: "jsval \<Rightarrow> jsnum" where
  "ToNumber (Number n) = n"
| "ToNumber _ = NaN"

text \<open>
  The bitwise operators convert their operands with ToInt32: truncate towards zero,
  reduce modulo \<open>2^32\<close>, read the result as a signed 32-bit integer; NaN becomes 0.
\<close>

definition trunc :: "rat \<Rightarrow> int" where
  "trunc x = (if 0 \<le> x then \<lfloor>x\<rfloor> else \<lceil>x\<rceil>)"

definition wrap32 :: "int \<Rightarrow> int" where
  "wrap32 n = (let m = n mod 2 ^ 32 in if 2 ^ 31 \<le> m then m - 2 ^ 32 else m)"

fun ToInt32 :: "jsnum \<Rightarrow> int" where
  "ToInt32 (Num x) = wrap32 (trunc x)"
| "ToInt32 NaN = 0"

text \<open>\<open>value | 0\<close>, \<open>a ^ b\<close> and \<open>1 << n\<close> (the shift count is taken modulo 32).\<close>

definition js_or_zero :: "jsnum \<Rightarrow> jsnum" where
  "js_or_zero v = Num (of_int (ToInt32 v))"

definition js_xor :: "jsnum \<Rightarrow> jsnum \<Rightarrow> jsnum" where
  "js_xor a b = Num (of_int (ToInt32 a XOR ToInt32 b))"

definition js_shl_one :: "nat \<Rightarrow> int" where
  "js_shl_one n = wrap32 (2 ^ (n mod 32))"

section \<open>The helpers imported from util/fn.js\<close>

text \<open>
  Modelled from the spec: \<open>constrain\<close> is imported from \<^verbatim>\<open>../util/fn.js\<close>, which is
  not among the sources. The spec (4.3): returns \<open>low\<close> if \<open>value < low\<close>, \<open>high\<close> if
  \<open>value > high\<close>, else \<open>value\<close>; a NaN input propagates as NaN.
\<close>

definition constrain :: "jsnum \<Rightarrow> jsnum \<Rightarrow> jsnum \<Rightarrow> jsnum" where
  "constrain v low high = (if js_lt v low then low else if js_gt v high then high else v)"

section \<open>The device\<close>

text \<open>
  The closures handed to the timer. \<open>blink\<close> registers a closure over its callback.
  \<open>animate\<close> registers a closure over \<open>start\<close> and \<open>opts\<close>; it is held with the
  fields the tick reads: the step, the delta function and the duration (both after
  \<open>animate\<close> has filled in their defaults) and the completion function.
  The step and completion closures are those of \<open>pulse\<close> (over \<open>update\<close> and
  \<open>direction\<close>; over \<open>time\<close> and \<open>callback\<close>) and of \<open>fade\<close> (over \<open>previous\<close>
  and \<open>update\<close>; over \<open>callback\<close>).
\<close>

datatype stepfn = PulseStep jsnum int | FadeStep jsnum jsnum

datatype completefn = PulseComplete jsval jsval | FadeComplete jsval

datatype timer_callback =
    BlinkTick jsval
  | AnimateTick nat stepfn "jsnum \<Rightarrow> jsnum" "completefn option" jsnum

text \<open>
  One device and what it acts on: the private \<open>#state\<close> (its \<open>mode\<close> and \<open>interval\<close>
  are \<open>null\<close> when \<open>None\<close>), \<open>this.LOW\<close> and \<open>this.HIGH\<close>, the values handed to the
  provider's \<open>write\<close> (oldest first), the timer facility's table of live handles and
  its next fresh handle, the clock read by \<open>Date.now()\<close> in milliseconds, and the log of
  the invocations of the caller's callbacks.

  Modelled from the spec: the timer facility \<open>timer\<close> is imported from
  \<^verbatim>\<open>../util/fn.js\<close>, which is not among the sources. The spec (4.4): scheduling a
  repeating callback returns a handle; cancelling an already-cancelled or unknown handle
  is a no-op. Handles are objects, hence truthy, and never reused. When a live timer
  fires is left to the environment (\<open>Wait\<close> and \<open>Tick\<close> below); a cancelled handle
  never fires.
\<close>

record led =
  state_sink :: bool
  state_isRunning :: bool
  state_value :: jsnum
  state_direction :: int
  state_mode :: "unit option"
  state_interval :: "nat option"
  LOW :: int
  HIGH :: int
  io_written :: "jsnum list"
  timers :: "nat \<rightharpoonup> timer_callback \<times> jsval"
  next_handle :: nat
  now :: nat
  called :: "nat list"

definition setInterval :: "timer_callback \<Rightarrow> jsval \<Rightarrow> led \<Rightarrow> nat \<times> led" where
  "setInterval cb ms w =
     (next_handle w,
      w\<lparr>timers := (timers w)(next_handle w \<mapsto> (cb, ms)), next_handle := Suc (next_handle w)\<rparr>)"

definition clearInterval :: "nat \<Rightarrow> led \<Rightarrow> led" where
  "clearInterval h w = w\<lparr>timers := (timers w)(h := None)\<rparr>"

text \<open>\<open>typeof callback === "function"\<close> guards every call of a caller's callback.\<close>

fun call_callback :: "jsval \<Rightarrow> led \<Rightarrow> led" where
  "call_callback (Function f) w = w\<lparr>called := called w @ [f]\<rparr>"
| "call_callback _ w = w"

subsection \<open>write, on, off, toggle, brightness, stop\<close>

definition led_write :: "led \<Rightarrow> led" where
  "led_write w =
     (let value0 = constrain (state_value w) (Num (of_int (LOW w))) (Num (of_int (HIGH w)));
          value1 = (if state_sink w then js_sub (Num (of_int (HIGH w))) value0 else value0)
      in w\<lparr>io_written := io_written w @ [js_or_zero value1]\<rparr>)"

definition on :: "led \<Rightarrow> led" where
  "on w = led_write (w\<lparr>state_value := Num (of_int (HIGH w))\<rparr>)"

definition off :: "led \<Rightarrow> led" where
  "off w = led_write (w\<lparr>state_value := Num (of_int (LOW w))\<rparr>)"

definition isOn :: "led \<Rightarrow> bool" where
  "isOn w = truthy_num (state_value w)"

definition toggle :: "led \<Rightarrow> led" where
  "toggle w = (if isOn w then off w else on w)"

definition brightness :: "jsnum \<Rightarrow> led \<Rightarrow> led" where
  "brightness v w = w\<lparr>state_value := v, io_written := io_written w @ [v]\<rparr>"

definition stop :: "led \<Rightarrow> led" where
  "stop w =
     (let w1 = (case state_interval w of Some h \<Rightarrow> clearInterval h w | None \<Rightarrow> w)
      in w1\<lparr>state_interval := None, state_isRunning := False\<rparr>)"

subsection \<open>blink\<close>

text \<open>
  The default parameter \<open>duration=100\<close> applies to \<open>undefined\<close>; a function given as
  first argument is the callback, with duration 100.
\<close>

definition blink :: "jsval \<Rightarrow> jsval \<Rightarrow> led \<Rightarrow> led" where
  "blink duration0 callback0 w =
     (let duration1 = (case duration0 of Undefined \<Rightarrow> Number (Num 100) | _ \<Rightarrow> duration0);
          w1 = stop w;
          callback = (case duration1 of Function f \<Rightarrow> duration1 | _ \<Rightarrow> callback0);
          duration = (case duration1 of Function f \<Rightarrow> Number (Num 100) | _ \<Rightarrow> duration1);
          w2 = w1\<lparr>state_isRunning := True\<rparr>;
          (h, w3) = setInterval (BlinkTick callback) duration w2
      in w3\<lparr>state_interval := Some h\<rparr>)"

subsection \<open>animate, pulse, fade\<close>

record opts =
  opts_step :: stepfn
  opts_delta :: "(jsnum \<Rightarrow> jsnum) option"
  opts_complete :: "completefn option"
  opts_duration :: jsval
  opts_delay :: jsval

text \<open>
  The two defaults \<open>animate\<close> writes into \<open>opts\<close>:
  \<^verbatim>\<open>if (!opts.duration) opts.duration = 1000\<close> and
  \<^verbatim>\<open>if (!opts.delta) opts.delta = function(val) { return val; }\<close>.
\<close>

definition default_duration :: "jsval \<Rightarrow> jsval" where
  "default_duration d = (if \<not> truthy d then Number (Num 1000) else d)"

definition default_delta :: "(jsnum \<Rightarrow> jsnum) option \<Rightarrow> jsnum \<Rightarrow> jsnum" where
  "default_delta f = (case f of None \<Rightarrow> (\<lambda>val. val) | Some g \<Rightarrow> g)"

definition animate :: "opts \<Rightarrow> led \<Rightarrow> led" where
  "animate opts0 w =
     (let start = now w;
          w1 = (case state_interval w of Some h \<Rightarrow> clearInterval h w | None \<Rightarrow> w);
          duration = default_duration (opts_duration opts0);
          delta = default_delta (opts_delta opts0);
          w2 = w1\<lparr>state_isRunning := True\<rparr>;
          (h, w3) = setInterval
             (AnimateTick start (opts_step opts0) delta (opts_complete opts0) (ToNumber duration))
             (if truthy (opts_delay opts0) then opts_delay opts0 else Number (Num 10)) w2
      in w3\<lparr>state_interval := Some h\<rparr>)"

definition pulse :: "jsval \<Rightarrow> jsval \<Rightarrow> led \<Rightarrow> led" where
  "pulse time0 callback0 w =
     (let time1 = (case time0 of Undefined \<Rightarrow> Number (Num 1000) | _ \<Rightarrow> time0);
          high = Num (of_int (HIGH w));
          target = (if \<not> js_eq (state_value w) (Num 0)
                    then (if js_eq (state_value w) high then Num 0 else high) else high);
          direction = (if js_eq target high then 1 else - 1);
          update = (if js_le (state_value w) target then target
                    else js_sub (state_value w) target);
          callback = (case time1 of Function f \<Rightarrow> time1 | _ \<Rightarrow> callback0);
          time = (case time1 of Function f \<Rightarrow> Number (Num 1000) | _ \<Rightarrow> time1)
      in animate \<lparr>opts_step = PulseStep update direction, opts_delta = None,
                  opts_complete = Some (PulseComplete time callback),
                  opts_duration = time, opts_delay = Undefined\<rparr> w)"

definition fade :: "jsnum \<Rightarrow> jsval \<Rightarrow> jsval \<Rightarrow> led \<Rightarrow> led" where
  "fade val time0 callback0 w =
     (let time1 = (case time0 of Undefined \<Rightarrow> Number (Num 1000) | _ \<Rightarrow> time0);
          previous = (if truthy_num (state_value w) then state_value w else Num 0);
          update = js_sub val (state_value w);
          callback = (case time1 of Function f \<Rightarrow> time1 | _ \<Rightarrow> callback0);
          time = (case time1 of Function f \<Rightarrow> Number (Num 1000) | _ \<Rightarrow> time1)
      in animate \<lparr>opts_step = FadeStep previous update, opts_delta = None,
                  opts_complete = Some (FadeComplete callback),
                  opts_duration = time, opts_delay = Undefined\<rparr> w)"

definition fadeIn :: "jsval \<Rightarrow> jsval \<Rightarrow> led \<Rightarrow> led" where
  "fadeIn time0 callback w =
     fade (Num (of_int (HIGH w)))
       (case time0 of Undefined \<Rightarrow> Number (Num 1000) | _ \<Rightarrow> time0) callback w"

definition fadeOut :: "jsval \<Rightarrow> jsval \<Rightarrow> led \<Rightarrow> led" where
  "fadeOut time0 callback w =
     fade (Num (of_int (LOW w)))
       (case time0 of Undefined \<Rightarrow> Number (Num 1000) | _ \<Rightarrow> time0) callback w"

subsection \<open>The timer callbacks\<close>

fun apply_step :: "stepfn \<Rightarrow> jsnum \<Rightarrow> led \<Rightarrow> led" where
  "apply_step (PulseStep update direction) delta w =
     (let value0 = js_mul update delta;
          value1 = (if direction = - 1 then js_xor value0 (Num (of_int (HIGH w))) else value0)
      in led_write (w\<lparr>state_value := value1, state_direction := direction\<rparr>))"
| "apply_step (FadeStep previous update) delta w =
     (let value0 = js_add previous (js_mul update delta)
      in led_write (w\<lparr>state_value := value0\<rparr>))"

fun run_complete :: "completefn \<Rightarrow> led \<Rightarrow> led" where
  "run_complete (PulseComplete time callback) w = call_callback callback (pulse time callback w)"
| "run_complete (FadeComplete callback) w = call_callback callback w"

definition blink_tick :: "jsval \<Rightarrow> led \<Rightarrow> led" where
  "blink_tick callback w = call_callback callback (toggle w)"

definition animate_tick ::
  "nat \<Rightarrow> stepfn \<Rightarrow> (jsnum \<Rightarrow> jsnum) \<Rightarrow> completefn option \<Rightarrow> jsnum \<Rightarrow> led \<Rightarrow> led" where
  "animate_tick start step deltaFn completeFn duration w =
     (let lapsed = Num (of_nat (now w) - of_nat start);
          progress0 = js_div lapsed duration;
          progress = (if js_gt progress0 (Num 1) then Num 1 else progress0);
          delta = deltaFn progress;
          w1 = apply_step step delta w
      in if js_eq progress (Num 1)
         then (case completeFn of Some c \<Rightarrow> run_complete c w1 | None \<Rightarrow> w1)
         else w1)"

text \<open>A live handle fires its closure; a cancelled or unknown one does nothing.\<close>

definition fire :: "nat \<Rightarrow> led \<Rightarrow> led" where
  "fire h w =
     (case timers w h of
        None \<Rightarrow> w
      | Some (BlinkTick callback, ms) \<Rightarrow> blink_tick callback w
      | Some (AnimateTick start step deltaFn completeFn duration, ms) \<Rightarrow>
          animate_tick start step deltaFn completeFn duration w)"

subsection \<open>Sequences of calls\<close>

text \<open>
  What happens to a device after construction: a call of a public method, the clock
  advancing, or the environment firing a timer handle.
\<close>

datatype call =
    On | Off | Toggle | Blink jsval jsval | Brightness jsnum
  | Pulse jsval jsval | Fade jsnum jsval jsval | FadeIn jsval jsval | FadeOut jsval jsval
  | Stop | Wait nat | Tick nat

fun exec :: "call \<Rightarrow> led \<Rightarrow> led" where
  "exec On w = on w"
| "exec Off w = off w"
| "exec Toggle w = toggle w"
| "exec (Blink duration callback) w = blink duration callback w"
| "exec (Brightness v) w = brightness v w"
| "exec (Pulse time callback) w = pulse time callback w"
| "exec (Fade val time callback) w = fade val time callback w"
| "exec (FadeIn time callback) w = fadeIn time callback w"
| "exec (FadeOut time callback) w = fadeOut time callback w"
| "exec Stop w = stop w"
| "exec (Wait d) w = w\<lparr>now := now w + d\<rparr>"
| "exec (Tick h) w = fire h w"

fun run :: "call list \<Rightarrow> led \<Rightarrow> led" where
  "run [] w = w"
| "run (c # cs) w = run cs (exec c w)"

subsection \<open>The constructor\<close>

datatype error = InvalidParameterError | ProviderResolutionError | TypeError

datatype pin = PinNumber jsnum | PinString string

datatype ioarg = IoPin pin | IoObject "string \<rightharpoonup> pin" | IoOther

type_synonym device_options = "string \<rightharpoonup> bool"

text \<open>
  Modelled from the spec: \<open>normalizeParams\<close> is imported from \<^verbatim>\<open>../util/fn.js\<close>,
  which is not among the sources. The spec (4.1): a number or a pin-identifier string is
  wrapped as \<open>{pin: io}\<close>; a mapping passes through; \<open>device\<close> defaults to an empty
  mapping when omitted or undefined; anything else fails with InvalidParameterError.
\<close>

fun normalizeParams ::
  "ioarg \<Rightarrow> device_options option \<Rightarrow> error + (string \<rightharpoonup> pin) \<times> device_options" where
  "normalizeParams IoOther device = Inl InvalidParameterError"
| "normalizeParams (IoPin p) device =
     Inr ([''pin'' \<mapsto> p], case device of None \<Rightarrow> Map.empty | Some d \<Rightarrow> d)"
| "normalizeParams (IoObject m) device =
     Inr (m, case device of None \<Rightarrow> Map.empty | Some d \<Rightarrow> d)"

text \<open>
  The provider class that \<open>getProvider\<close> resolves is a parameter of the constructor:
  \<open>None\<close> when the resolution fails, else the \<open>resolution\<close> the provider instance
  reports (\<open>None\<close> when it reports none). A device argument that is omitted or
  \<open>undefined\<close> is \<open>None\<close>; reading \<open>device.sink\<close> then throws a TypeError, which
  rejects the promise the constructor returns.
\<close>

definition HIGH_of :: "nat option \<Rightarrow> int" where
  "HIGH_of resolution =
     (case resolution of
        None \<Rightarrow> 1
      | Some r \<Rightarrow> if r \<noteq> 0 then js_shl_one r - 1 else 1)"

definition Led_constructor ::
  "ioarg \<Rightarrow> device_options option \<Rightarrow> nat option option \<Rightarrow> nat \<Rightarrow> error + led" where
  "Led_constructor io device provider t0 =
     (case normalizeParams io device of
        Inl e \<Rightarrow> Inl e
      | Inr (ioOpts, deviceOpts) \<Rightarrow>
          (case provider of
             None \<Rightarrow> Inl ProviderResolutionError
           | Some resolution \<Rightarrow>
               (case device of
                  None \<Rightarrow> Inl TypeError
                | Some d \<Rightarrow>
                    Inr \<lparr>state_sink = (d ''sink'' = Some True),
                         state_isRunning = False,
                         state_value = Num 0,
                         state_direction = 1,
                         state_mode = None,
                         state_interval = None,
                         LOW = 0,
                         HIGH = HIGH_of resolution,
                         io_written = [],
                         timers = Map.empty,
                         next_handle = 0,
                         now = t0,
                         called = []\<rparr>)))"

section \<open>Predicates used by the properties\<close>

text \<open>
  The discipline the class keeps on its one timer: the live handles of the timer facility
  are exactly the handle stored in \<open>#state.interval\<close>, \<open>isRunning\<close> is true exactly
  when a handle is stored, and every live handle is older than the next fresh one.
\<close>

definition timer_inv :: "led \<Rightarrow> bool" where
  "timer_inv w \<longleftrightarrow>
     dom (timers w) = set_option (state_interval w) \<and>
     (state_isRunning w \<longleftrightarrow> state_interval w \<noteq> None) \<and>
     (\<forall>h \<in> dom (timers w). h < next_handle w)"

text \<open>The public methods that start an animation.\<close>

fun starts_animation :: "call \<Rightarrow> bool" where
  "starts_animation (Blink d cb) = True"
| "starts_animation (Pulse t cb) = True"
| "starts_animation (Fade v t cb) = True"
| "starts_animation (FadeIn t cb) = True"
| "starts_animation (FadeOut t cb) = True"
| "starts_animation _ = False"







text \<open>
  A number within \<open>[lo, hi]\<close> (NaN is not); a time that is not a negative number; a call
  whose brightness or fade target lies within \<open>[lo, hi]\<close> and whose time is not negative.
\<close>

fun in_range :: "jsnum \<Rightarrow> int \<Rightarrow> int \<Rightarrow> bool" where
  "in_range (Num x) lo hi = (of_int lo \<le> x \<and> x \<le> of_int hi)"
| "in_range NaN lo hi = False"

fun ok_time :: "jsval \<Rightarrow> bool" where
  "ok_time (Number (Num x)) = (0 \<le> x)"
| "ok_time _ = True"

fun ok_call :: "int \<Rightarrow> int \<Rightarrow> call \<Rightarrow> bool" where
  "ok_call lo hi (Brightness v) = in_range v lo hi"
| "ok_call lo hi (Fade v t cb) = (in_range v lo hi \<and> ok_time t)"
| "ok_call lo hi (FadeIn t cb) = ok_time t"
| "ok_call lo hi (FadeOut t cb) = ok_time t"
| "ok_call lo hi (Pulse t cb) = ok_time t"
| "ok_call lo hi _ = True"

text \<open>
  The invariant behind the range of the stored value: \<open>LOW\<close> is 0 and \<open>HIGH\<close> is
  \<open>2^k - 1\<close> with \<open>1 \<le> k \<le> 30\<close>; the stored value is within range; and every live
  animation began in the past, has the identity as delta function and a positive
  duration, steps between values within range, and re-arms only with a time that is not
  negative.
\<close>

fun positive :: "jsnum \<Rightarrow> bool" where
  "positive (Num x) = (0 < x)"
| "positive NaN = False"

fun ok_step :: "int \<Rightarrow> stepfn \<Rightarrow> bool" where
  "ok_step H (FadeStep (Num p) (Num u)) =
     (0 \<le> p \<and> p \<le> of_int H \<and> 0 \<le> p + u \<and> p + u \<le> of_int H)"
| "ok_step H (PulseStep (Num u) dir) = (0 \<le> u \<and> u \<le> of_int H)"
| "ok_step H _ = False"

fun ok_complete :: "completefn option \<Rightarrow> bool" where
  "ok_complete (Some (PulseComplete t cb)) = ok_time t"
| "ok_complete _ = True"

fun ok_timer :: "led \<Rightarrow> timer_callback \<Rightarrow> bool" where
  "ok_timer w (BlinkTick cb) = True"
| "ok_timer w (AnimateTick start step deltaFn completeFn duration) =
     (start \<le> now w \<and> deltaFn = (\<lambda>val. val) \<and> positive duration \<and>
      ok_step (HIGH w) step \<and> ok_complete completeFn)"

definition device_ok :: "led \<Rightarrow> bool" where
  "device_ok w \<longleftrightarrow> LOW w = 0 \<and> (\<exists>k. 1 \<le> k \<and> k \<le> 30 \<and> HIGH w = 2 ^ k - 1)"

definition timers_ok :: "led \<Rightarrow> bool" where
  "timers_ok w \<longleftrightarrow> (\<forall>h cb ms. timers w h = Some (cb, ms) \<longrightarrow> ok_timer w cb)"

definition value_inv :: "led \<Rightarrow> bool" where
  "value_inv w \<longleftrightarrow>
     device_ok w \<and> in_range (state_value w) (LOW w) (HIGH w) \<and> timers_ok w"

section \<open>Frame lemmas\<close>

lemma led_write_frame [simp]:
  "timers (led_write w) = timers w" "state_interval (led_write w) = state_interval w"
  "state_isRunning (led_write w) = state_isRunning w" "next_handle (led_write w) = next_handle w"
  "HIGH (led_write w) = HIGH w" "LOW (led_write w) = LOW w" "now (led_write w) = now w"
  "called (led_write w) = called w" "state_value (led_write w) = state_value w"
  "state_sink (led_write w) = state_sink w" "state_direction (led_write w) = state_direction w"
  "state_mode (led_write w) = state_mode w"
  by (simp_all add: led_write_def Let_def)

lemma call_callback_frame [simp]:
  "timers (call_callback cb w) = timers w" "state_interval (call_callback cb w) = state_interval w"
  "state_isRunning (call_callback cb w) = state_isRunning w"
  "next_handle (call_callback cb w) = next_handle w"
  "HIGH (call_callback cb w) = HIGH w" "LOW (call_callback cb w) = LOW w"
  "now (call_callback cb w) = now w" "state_value (call_callback cb w) = state_value w"
  "state_sink (call_callback cb w) = state_sink w"
  "io_written (call_callback cb w) = io_written w"
  by (cases cb; simp)+

lemma animate_armed:
  "timers (animate opts w) (next_handle w) =
     Some (AnimateTick (now w) (opts_step opts) (default_delta (opts_delta opts))
             (opts_complete opts) (ToNumber (default_duration (opts_duration opts))),
           if truthy (opts_delay opts) then opts_delay opts else Number (Num 10))"
  by (simp add: animate_def setInterval_def clearInterval_def Let_def split: option.splits)

lemma animate_frame [simp]:
  "now (animate opts w) = now w" "HIGH (animate opts w) = HIGH w" "LOW (animate opts w) = LOW w"
  "state_value (animate opts w) = state_value w" "called (animate opts w) = called w"
  "io_written (animate opts w) = io_written w" "state_sink (animate opts w) = state_sink w"
  "state_interval (animate opts w) = Some (next_handle w)"
  "state_isRunning (animate opts w)"
  "next_handle (animate opts w) = Suc (next_handle w)"
  by (simp_all add: animate_def setInterval_def clearInterval_def Let_def split: option.splits)

section \<open>The timer discipline is an invariant\<close>

lemma timer_inv_led_write: "timer_inv w \<Longrightarrow> timer_inv (led_write w)"
  by (simp add: timer_inv_def)

lemma timer_inv_call_callback: "timer_inv w \<Longrightarrow> timer_inv (call_callback cb w)"
  by (simp add: timer_inv_def)

lemma timer_inv_on: "timer_inv w \<Longrightarrow> timer_inv (on w)"
  by (simp add: timer_inv_def on_def)

lemma timer_inv_off: "timer_inv w \<Longrightarrow> timer_inv (off w)"
  by (simp add: timer_inv_def off_def)

lemma timer_inv_toggle: "timer_inv w \<Longrightarrow> timer_inv (toggle w)"
  by (simp add: toggle_def timer_inv_on timer_inv_off)

lemma timer_inv_brightness: "timer_inv w \<Longrightarrow> timer_inv (brightness v w)"
  by (simp add: timer_inv_def brightness_def)

lemma dom_singleton_clear: "dom m = {y} \<Longrightarrow> m(y := None) = Map.empty"
proof -
  assume "dom m = {y}"
  then have "dom (m(y := None)) = {}" by simp
  then show ?thesis by (simp only: dom_eq_empty_conv)
qed

lemma timer_inv_stop: "timer_inv w \<Longrightarrow> timer_inv (stop w)"
  by (auto simp: timer_inv_def stop_def clearInterval_def Let_def dom_singleton_clear
      split: option.splits)

lemma timer_inv_blink: "timer_inv w \<Longrightarrow> timer_inv (blink d cb w)"
  by (auto simp: timer_inv_def blink_def stop_def setInterval_def clearInterval_def Let_def
      dom_singleton_clear split: option.splits)

lemma timer_inv_animate: "timer_inv w \<Longrightarrow> timer_inv (animate opts w)"
  by (auto simp: timer_inv_def animate_def setInterval_def clearInterval_def Let_def
      dom_singleton_clear split: option.splits)

lemma timer_inv_pulse: "timer_inv w \<Longrightarrow> timer_inv (pulse t cb w)"
  unfolding pulse_def Let_def by (rule timer_inv_animate)

lemma timer_inv_fade: "timer_inv w \<Longrightarrow> timer_inv (fade v t cb w)"
  unfolding fade_def Let_def by (rule timer_inv_animate)

lemma timer_inv_apply_step: "timer_inv w \<Longrightarrow> timer_inv (apply_step s delta w)"
  by (cases s) (simp_all add: timer_inv_def Let_def)

lemma timer_inv_run_complete: "timer_inv w \<Longrightarrow> timer_inv (run_complete c w)"
  by (cases c) (simp_all add: timer_inv_call_callback timer_inv_pulse)

lemma timer_inv_animate_tick: "timer_inv w \<Longrightarrow> timer_inv (animate_tick s st df c du w)"
  by (simp add: animate_tick_def Let_def timer_inv_apply_step timer_inv_run_complete
      split: option.splits)

lemma timer_inv_fire: "timer_inv w \<Longrightarrow> timer_inv (fire h w)"
  by (simp add: fire_def blink_tick_def timer_inv_animate_tick timer_inv_call_callback
      timer_inv_toggle split: option.splits timer_callback.splits prod.splits)

lemma timer_inv_exec: "timer_inv w \<Longrightarrow> timer_inv (exec c w)"
proof (cases c)
  case (Wait d)
  assume "timer_inv w"
  then show ?thesis using Wait by (simp add: timer_inv_def)
qed (simp_all add: timer_inv_on timer_inv_off timer_inv_toggle timer_inv_blink
    timer_inv_brightness timer_inv_pulse timer_inv_fade fadeIn_def fadeOut_def timer_inv_stop
    timer_inv_fire)

lemma timer_inv_run: "timer_inv w \<Longrightarrow> timer_inv (run cs w)"
  by (induction cs arbitrary: w) (simp_all add: timer_inv_exec)

lemma timer_inv_constructor:
  "Led_constructor io device provider t0 = Inr w0 \<Longrightarrow> timer_inv w0"
  by (auto simp: Led_constructor_def timer_inv_def split: sum.splits option.splits prod.splits)

lemma blink_dom: "timer_inv w \<Longrightarrow> dom (timers (blink d cb w)) = {next_handle w}"
  by (auto simp: timer_inv_def blink_def stop_def setInterval_def clearInterval_def Let_def
      dom_singleton_clear split: option.splits)

lemma animate_dom: "timer_inv w \<Longrightarrow> dom (timers (animate opts w)) = {next_handle w}"
  by (auto simp: timer_inv_def animate_def setInterval_def clearInterval_def Let_def
      dom_singleton_clear split: option.splits)

lemma starts_animation_dom:
  "timer_inv w \<Longrightarrow> starts_animation c \<Longrightarrow> dom (timers (exec c w)) = {next_handle w}"
  by (cases c) (simp_all add: blink_dom animate_dom pulse_def fade_def fadeIn_def fadeOut_def Let_def)

lemma fire_dead: "timers w h = None \<Longrightarrow> fire h w = w"
  by (simp add: fire_def)

section \<open>One timer per device\<close>

text \<open>
  C6: a device built by the constructor has, after any sequence of method calls, clock
  advances and timer firings, at most one live timer handle, and it is the one stored in
  \<open>#state.interval\<close>. Starting a new animation (blink, pulse, fade, fadeIn, fadeOut)
  cancels every handle that was live before: such a handle is no longer in the timer
  table, and firing it changes nothing.
\<close>

theorem at_most_one_timer:
  assumes "Led_constructor io device provider t0 = Inr w0"
  shows "card (dom (timers (run cs w0))) \<le> 1 \<and>
         dom (timers (run cs w0)) = set_option (state_interval (run cs w0)) \<and>
         (\<forall>h. starts_animation c \<longrightarrow> timers (run cs w0) h \<noteq> None \<longrightarrow>
              timers (exec c (run cs w0)) h = None \<and>
              fire h (exec c (run cs w0)) = exec c (run cs w0))"
proof -
  let ?w = "run cs w0"
  have inv: "timer_inv ?w"
    using assms by (simp add: timer_inv_constructor timer_inv_run)
  then have d: "dom (timers ?w) = set_option (state_interval ?w)"
    by (simp add: timer_inv_def)
  then have c1: "card (dom (timers ?w)) \<le> 1"
    by (cases "state_interval ?w") simp_all
  have old: "timers (exec c ?w) h = None \<and> fire h (exec c ?w) = exec c ?w"
    if s: "starts_animation c" and l: "timers ?w h \<noteq> None" for h
  proof -
    from l have "h \<in> dom (timers ?w)" by (simp add: dom_def)
    with inv have "h < next_handle ?w" by (simp add: timer_inv_def)
    moreover have "dom (timers (exec c ?w)) = {next_handle ?w}"
      using inv s by (rule starts_animation_dom)
    ultimately have "h \<notin> dom (timers (exec c ?w))" by simp
    then have "timers (exec c ?w) h = None" by (metis domIff)
    then show ?thesis by (simp add: fire_dead)
  qed
  from c1 d old show ?thesis by blast
qed

text \<open>
  The witness for C6: after \<open>blink()\<close> handle 0 is live; \<open>fade(1)\<close> then cancels it.
\<close>

theorem at_most_one_timer_witness:
  "(case Led_constructor (IoPin (PinNumber (Num 14))) (Some Map.empty) (Some None) 0 of
      Inl e \<Rightarrow> False
    | Inr w0 \<Rightarrow>
        timers (run [Blink Undefined Undefined] w0) 0 \<noteq> None \<and>
        card (dom (timers (run [Blink Undefined Undefined] w0))) \<le> 1 \<and>
        timers (exec (Fade (Num 1) Undefined Undefined) (run [Blink Undefined Undefined] w0)) 0
          = None \<and>
        fire 0 (exec (Fade (Num 1) Undefined Undefined) (run [Blink Undefined Undefined] w0)) =
          exec (Fade (Num 1) Undefined Undefined) (run [Blink Undefined Undefined] w0))"
proof -
  obtain w0 where
    c: "Led_constructor (IoPin (PinNumber (Num 14))) (Some Map.empty) (Some None) 0 = Inr w0"
    by (simp add: Led_constructor_def)
  have l: "timers (run [Blink Undefined Undefined] w0) 0 \<noteq> None"
    using c by (auto simp: Led_constructor_def blink_def stop_def setInterval_def Let_def)
  have s: "starts_animation (Fade (Num 1) Undefined Undefined)"
    by simp
  note t = at_most_one_timer [OF c, of "[Blink Undefined Undefined]"
      "Fade (Num 1) Undefined Undefined"]
  from t have a: "card (dom (timers (run [Blink Undefined Undefined] w0))) \<le> 1"
    by (rule conjunct1)
  from t s l have b:
    "timers (exec (Fade (Num 1) Undefined Undefined) (run [Blink Undefined Undefined] w0)) 0
       = None \<and>
     fire 0 (exec (Fade (Num 1) Undefined Undefined) (run [Blink Undefined Undefined] w0)) =
       exec (Fade (Num 1) Undefined Undefined) (run [Blink Undefined Undefined] w0)"
    by blast
  from a b l show ?thesis
    by (simp only: c sum.case) blast
qed

section \<open>stop on an idle device\<close>

lemma stop_idle: "state_interval w = None \<Longrightarrow> \<not> state_isRunning w \<Longrightarrow> stop w = w"
  by (simp add: stop_def)

text \<open>
  C9: on a device built by the constructor, after any sequence of method calls, clock
  advances and timer firings that leaves \<open>isRunning\<close> false, \<open>stop()\<close> returns
  normally and leaves the whole device unchanged: value, direction, sink, mode, timer
  handle and isRunning, and also the timer table, the provider's log and the clock.
\<close>

theorem stop_idle_unchanged:
  assumes "Led_constructor io device provider t0 = Inr w0"
    and "\<not> state_isRunning (run cs w0)"
  shows "stop (run cs w0) = run cs w0"
proof -
  have "timer_inv (run cs w0)"
    using assms(1) by (simp add: timer_inv_constructor timer_inv_run)
  with assms(2) have "state_interval (run cs w0) = None"
    by (simp add: timer_inv_def)
  with assms(2) show ?thesis by (simp add: stop_idle)
qed

text \<open>The witness for C9: a device that was switched on, set blinking and stopped.\<close>

theorem stop_idle_unchanged_witness:
  "(case Led_constructor (IoPin (PinNumber (Num 14))) (Some Map.empty) (Some None) 0 of
      Inl e \<Rightarrow> False
    | Inr w0 \<Rightarrow>
        \<not> state_isRunning (run [On, Blink Undefined Undefined, Stop] w0) \<and>
        stop (run [On, Blink Undefined Undefined, Stop] w0) =
          run [On, Blink Undefined Undefined, Stop] w0)"
proof -
  obtain w0 where
    c: "Led_constructor (IoPin (PinNumber (Num 14))) (Some Map.empty) (Some None) 0 = Inr w0"
    by (simp add: Led_constructor_def)
  have n: "\<not> state_isRunning (run [On, Blink Undefined Undefined, Stop] w0)"
    by (simp add: stop_def Let_def)
  from stop_idle_unchanged [OF c n] n c show ?thesis by simp
qed

section \<open>What write hands to the provider\<close>

lemma trunc_range: "0 \<le> y \<Longrightarrow> y \<le> of_int H \<Longrightarrow> 0 \<le> trunc y \<and> trunc y \<le> H"
  by (simp add: trunc_def floor_le_iff le_floor_iff)

lemma wrap32_id: "0 \<le> n \<Longrightarrow> n < 2 ^ 31 \<Longrightarrow> wrap32 n = n"
  by (simp add: wrap32_def Let_def)

lemma ToInt32_range:
  assumes "0 \<le> y" "y \<le> of_int H" "H < 2 ^ 31"
  shows "0 \<le> ToInt32 (Num y) \<and> ToInt32 (Num y) \<le> H"
proof -
  from assms(1,2) have t: "0 \<le> trunc y \<and> trunc y \<le> H" by (rule trunc_range)
  with assms(3) have "wrap32 (trunc y) = trunc y" by (simp add: wrap32_id)
  with t show ?thesis by simp
qed

lemma constrain_range:
  assumes "0 \<le> H"
  shows "constrain v (Num 0) (Num (of_int H)) = NaN \<or>
         (\<exists>y. constrain v (Num 0) (Num (of_int H)) = Num y \<and> 0 \<le> y \<and> y \<le> of_int H)"
  using assms by (cases v) (auto simp: constrain_def)
text \<open>
  C10: on a device with \<open>LOW = 0\<close> and \<open>0 \<le> HIGH < 2^31\<close> (the constructor gives
  \<open>LOW = 0\<close>, and \<open>HIGH = 1\<close> or \<open>2^r - 1\<close> for a resolution \<open>r\<close> up to 30), every
  call of \<open>write()\<close> hands the provider exactly one value, an integer \<open>n\<close> with
  \<open>LOW \<le> n \<le> HIGH\<close>, whatever the stored value is (fractional, out of range or NaN)
  and whether or not the device is wired for sink drive.
\<close>

theorem led_write_integer_in_range:
  assumes "LOW w = 0" and "0 \<le> HIGH w" and "HIGH w < 2 ^ 31"
  shows "\<exists>n. io_written (led_write w) = io_written w @ [Num (of_int n)] \<and>
             LOW w \<le> n \<and> n \<le> HIGH w"
proof -
  let ?H = "HIGH w"
  let ?c = "constrain (state_value w) (Num 0) (Num (of_int ?H))"
  let ?v = "if state_sink w then js_sub (Num (of_int ?H)) ?c else ?c"
  have w: "io_written (led_write w) = io_written w @ [Num (of_int (ToInt32 ?v))]"
    using assms(1) by (simp add: led_write_def Let_def js_or_zero_def)
  from assms(2) have "?c = NaN \<or> (\<exists>y. ?c = Num y \<and> 0 \<le> y \<and> y \<le> of_int ?H)"
    by (rule constrain_range)
  then have "?v = NaN \<or> (\<exists>y. ?v = Num y \<and> 0 \<le> y \<and> y \<le> of_int ?H)"
    by auto
  then have "0 \<le> ToInt32 ?v \<and> ToInt32 ?v \<le> ?H"
  proof
    assume "?v = NaN"
    with assms(2) show ?thesis by simp
  next
    assume "\<exists>y. ?v = Num y \<and> 0 \<le> y \<and> y \<le> of_int ?H"
    then obtain y where y: "?v = Num y" "0 \<le> y" "y \<le> of_int ?H" by blast
    from ToInt32_range [OF y(2) y(3) assms(3)] y(1) show ?thesis by simp
  qed
  with w assms(1) show ?thesis by auto
qed

text \<open>
  The witness for C10: a sink device with \<open>HIGH = 255\<close> whose stored value is 100.5;
  the provider receives \<open>255 - 100.5\<close> truncated, that is 154.
\<close>

theorem led_write_integer_in_range_witness:
  "(let w = \<lparr>state_sink = True, state_isRunning = False, state_value = Num (201 / 2),
              state_direction = 1, state_mode = None, state_interval = None, LOW = 0,
              HIGH = 255, io_written = [], timers = Map.empty, next_handle = 0, now = 0,
              called = []\<rparr>
    in LOW w = 0 \<and> 0 \<le> HIGH w \<and> HIGH w < 2 ^ 31 \<and>
       (\<exists>n. io_written (led_write w) = io_written w @ [Num (of_int n)] \<and>
            LOW w \<le> n \<and> n \<le> HIGH w) \<and>
       io_written (led_write w) = [Num 154])"
proof -
  let ?w = "\<lparr>state_sink = True, state_isRunning = False, state_value = Num (201 / 2),
              state_direction = 1, state_mode = None, state_interval = None, LOW = 0,
              HIGH = 255, io_written = [], timers = Map.empty, next_handle = 0, now = 0,
              called = []\<rparr>"
  have a: "LOW ?w = 0" and b: "0 \<le> HIGH ?w" and c: "HIGH ?w < 2 ^ 31"
    by simp_all
  have f: "\<lfloor>309 / 2 :: rat\<rfloor> = 154"
    by code_simp
  have v: "io_written (led_write ?w) = [Num 154]"
    by (simp add: led_write_def constrain_def js_or_zero_def trunc_def wrap32_def Let_def f)
  from led_write_integer_in_range [OF a b c] a b c v show ?thesis
    by (simp only: Let_def)
qed

section \<open>The animation tick\<close>


lemma progress_min:
  "D \<noteq> 0 \<Longrightarrow>
   (if js_gt (js_div (Num x) (Num D)) (Num 1) then Num 1 else js_div (Num x) (Num D)) =
     Num (min (x / D) 1)"
  by (simp add: min_def)


section \<open>pulse oscillates\<close>


lemma pulse_default_time:
  "pulse Undefined cb w = pulse (Number (Num 1000)) cb w"
  "pulse (Function f) cb w = pulse (Number (Num 1000)) (Function f) w"
  by (simp_all add: pulse_def Let_def)


lemma xor_mask_int:
  fixes x :: int
  assumes "0 \<le> x" "x \<le> 2 ^ k - 1"
  shows "x XOR (2 ^ k - 1) = 2 ^ k - 1 - x"
proof -
  from assms have tb: "take_bit k x = x"
    by (simp add: take_bit_int_eq_self)
  have nk: "n < k" if "bit x n" for n
  proof -
    from that tb have "bit (take_bit k x) n" by simp
    then show ?thesis by (simp add: bit_take_bit_iff)
  qed
  have "x XOR mask k = take_bit k (NOT x)"
    by (rule bit_eqI) (auto simp: bit_xor_iff bit_mask_iff bit_take_bit_iff bit_not_iff dest: nk)
  also have "\<dots> = mask k - take_bit k x"
    by (rule take_bit_not_eq_mask_diff)
  finally show ?thesis
    by (simp add: mask_eq_exp_minus_1 tb)
qed

lemma apply_step_frame [simp]:
  "timers (apply_step st delta w) = timers w"
  "state_interval (apply_step st delta w) = state_interval w"
  "state_isRunning (apply_step st delta w) = state_isRunning w"
  "next_handle (apply_step st delta w) = next_handle w"
  "HIGH (apply_step st delta w) = HIGH w" "LOW (apply_step st delta w) = LOW w"
  "now (apply_step st delta w) = now w" "called (apply_step st delta w) = called w"
  "state_sink (apply_step st delta w) = state_sink w"
  by (cases st; simp add: Let_def)+

lemma mask_bounds:
  fixes H :: int
  assumes "H = 2 ^ k - 1" and "1 \<le> k" and "k \<le> 30"
  shows "1 \<le> H" and "H < 2 ^ 31"
proof -
  from assms(2) have "(2::int) ^ 1 \<le> 2 ^ k"
    by (intro power_increasing) simp_all
  with assms(1) show "1 \<le> H" by simp
  from assms(3) have "(2::int) ^ k \<le> 2 ^ 30"
    by (intro power_increasing) simp_all
  with assms(1) show "H < 2 ^ 31" by simp
qed

lemma ToInt32_of_int: "0 \<le> H \<Longrightarrow> H < 2 ^ 31 \<Longrightarrow> ToInt32 (Num (of_int H)) = H"
  by (simp add: trunc_def wrap32_id)

lemma ToInt32_floor:
  assumes "0 \<le> y" and "y \<le> of_int H" and "H < 2 ^ 31"
  shows "ToInt32 (Num y) = \<lfloor>y\<rfloor>"
proof -
  from assms(1,2) have "0 \<le> trunc y \<and> trunc y \<le> H" by (rule trunc_range)
  with assms(3) have "wrap32 (trunc y) = trunc y" by (simp add: wrap32_id)
  with assms(1) show ?thesis by (simp add: trunc_def)
qed

lemma js_xor_mask:
  assumes "H = 2 ^ k - 1" and "1 \<le> k" and "k \<le> 30" and "0 \<le> y" and "y \<le> of_int H"
  shows "js_xor (Num y) (Num (of_int H)) = Num (of_int (H - \<lfloor>y\<rfloor>))"
proof -
  from assms(1-3) have b: "1 \<le> H" "H < 2 ^ 31" by (rule mask_bounds)+
  from assms(4,5) b(2) have f: "ToInt32 (Num y) = \<lfloor>y\<rfloor>" by (rule ToInt32_floor)
  from b(1) have "0 \<le> H" by simp
  from this b(2) have h: "ToInt32 (Num (of_int H)) = H" by (rule ToInt32_of_int)
  from assms(5) have "\<lfloor>y\<rfloor> \<le> \<lfloor>rat_of_int H\<rfloor>" by (rule floor_mono)
  then have "\<lfloor>y\<rfloor> \<le> H" by simp
  with assms(1,4) have r: "0 \<le> \<lfloor>y\<rfloor>" "\<lfloor>y\<rfloor> \<le> 2 ^ k - 1"
    by simp_all
  from xor_mask_int [OF r] show ?thesis
    unfolding js_xor_def f h by (simp add: assms(1))
qed








section \<open>The range of the stored value\<close>

lemma ok_timer_frame:
  "ok_timer w cb \<Longrightarrow> now w \<le> now w' \<Longrightarrow> HIGH w' = HIGH w \<Longrightarrow> ok_timer w' cb"
  by (cases cb) simp_all

lemma timers_ok_frame:
  assumes "timers_ok w" and "timers w' = timers w" and "now w \<le> now w'" and "HIGH w' = HIGH w"
  shows "timers_ok w'"
  using assms unfolding timers_ok_def by (metis ok_timer_frame)

lemma timers_ok_shrink:
  assumes "timers_ok w" and "\<And>h x. timers w' h = Some x \<Longrightarrow> timers w h = Some x"
    and "now w \<le> now w'" and "HIGH w' = HIGH w"
  shows "timers_ok w'"
  using assms unfolding timers_ok_def by (metis ok_timer_frame)

lemma device_ok_high: "device_ok w \<Longrightarrow> 1 \<le> HIGH w \<and> HIGH w < 2 ^ 31"
  unfolding device_ok_def using mask_bounds by blast

lemma value_inv_frame:
  assumes "value_inv w" and "timers w' = timers w" and "now w \<le> now w'"
    and "HIGH w' = HIGH w" and "LOW w' = LOW w" and "state_value w' = state_value w"
  shows "value_inv w'"
  using assms timers_ok_frame [of w w'] unfolding value_inv_def device_ok_def by auto

lemma value_inv_set_value:
  assumes "value_inv w" and "in_range v (LOW w) (HIGH w)"
  shows "value_inv (led_write (w\<lparr>state_value := v\<rparr>))"
proof -
  let ?w' = "led_write (w\<lparr>state_value := v\<rparr>)"
  from assms(1) have "timers_ok w" by (simp add: value_inv_def)
  then have "timers_ok ?w'" by (rule timers_ok_frame) simp_all
  with assms show ?thesis by (auto simp: value_inv_def device_ok_def)
qed

lemma value_inv_on: "value_inv w \<Longrightarrow> value_inv (on w)"
  unfolding on_def using device_ok_high [of w]
  by (intro value_inv_set_value) (auto simp: value_inv_def device_ok_def)

lemma value_inv_off: "value_inv w \<Longrightarrow> value_inv (off w)"
  unfolding off_def using device_ok_high [of w]
  by (intro value_inv_set_value) (auto simp: value_inv_def device_ok_def)

lemma value_inv_toggle: "value_inv w \<Longrightarrow> value_inv (toggle w)"
  by (simp add: toggle_def value_inv_on value_inv_off)

lemma value_inv_call_callback: "value_inv w \<Longrightarrow> value_inv (call_callback cb w)"
  by (rule value_inv_frame) simp_all

lemma value_inv_brightness:
  assumes "value_inv w" and "in_range v (LOW w) (HIGH w)"
  shows "value_inv (brightness v w)"
proof -
  from assms(1) have "timers_ok w" by (simp add: value_inv_def)
  then have "timers_ok (brightness v w)"
    by (rule timers_ok_frame) (simp_all add: brightness_def)
  with assms show ?thesis by (auto simp: value_inv_def device_ok_def brightness_def)
qed

lemma value_inv_wait: "value_inv w \<Longrightarrow> value_inv (exec (Wait d) w)"
  by (rule value_inv_frame) simp_all

lemma value_inv_stop: "value_inv w \<Longrightarrow> value_inv (stop w)"
proof -
  assume v: "value_inv w"
  then have "timers_ok w" by (simp add: value_inv_def)
  then have "timers_ok (stop w)"
    by (rule timers_ok_shrink)
      (auto simp: stop_def clearInterval_def Let_def split: option.splits if_splits)
  moreover have "HIGH (stop w) = HIGH w" "LOW (stop w) = LOW w"
    "state_value (stop w) = state_value w"
    by (simp_all add: stop_def clearInterval_def Let_def split: option.splits)
  ultimately show ?thesis using v by (auto simp: value_inv_def device_ok_def)
qed

lemma value_inv_blink:
  assumes "value_inv w"
  shows "value_inv (blink d cb w)"
proof -
  from assms have t: "timers_ok w" by (simp add: value_inv_def)
  have fr: "HIGH (blink d cb w) = HIGH w" "LOW (blink d cb w) = LOW w"
    "state_value (blink d cb w) = state_value w" "now (blink d cb w) = now w"
    by (simp_all add: blink_def stop_def setInterval_def clearInterval_def Let_def
        split: option.splits)
  have "ok_timer (blink d cb w) c" if "timers (blink d cb w) h = Some (c, ms)" for h c ms
  proof (cases "h = next_handle w")
    case True
    with that have "\<exists>x. c = BlinkTick x"
      by (auto simp: blink_def stop_def setInterval_def clearInterval_def Let_def
          split: option.splits)
    then show ?thesis by auto
  next
    case False
    with that have "timers w h = Some (c, ms)"
      by (simp add: blink_def stop_def setInterval_def clearInterval_def Let_def
          split: option.splits if_splits)
    with t have "ok_timer w c" unfolding timers_ok_def by blast
    then show ?thesis by (rule ok_timer_frame) (simp_all add: fr)
  qed
  then have "timers_ok (blink d cb w)" unfolding timers_ok_def by blast
  with assms fr show ?thesis by (auto simp: value_inv_def device_ok_def)
qed

lemma value_inv_animate:
  assumes "value_inv w" and "ok_step (HIGH w) (opts_step opts)" and "opts_delta opts = None"
    and "ok_complete (opts_complete opts)"
    and "positive (ToNumber (default_duration (opts_duration opts)))"
  shows "value_inv (animate opts w)"
proof -
  from assms(1) have t: "timers_ok w" by (simp add: value_inv_def)
  have "ok_timer (animate opts w) c" if "timers (animate opts w) h = Some (c, ms)" for h c ms
  proof (cases "h = next_handle w")
    case True
    with that have "c = AnimateTick (now w) (opts_step opts) (default_delta (opts_delta opts))
             (opts_complete opts) (ToNumber (default_duration (opts_duration opts)))"
      by (simp add: animate_armed)
    with assms(2-5) show ?thesis by (simp add: default_delta_def)
  next
    case False
    with that have "timers w h = Some (c, ms)"
      by (simp add: animate_def setInterval_def clearInterval_def Let_def
          split: option.splits if_splits)
    with t have "ok_timer w c" unfolding timers_ok_def by blast
    then show ?thesis by (rule ok_timer_frame) simp_all
  qed
  then have "timers_ok (animate opts w)" unfolding timers_ok_def by blast
  with assms(1) show ?thesis by (auto simp: value_inv_def device_ok_def)
qed

lemma ok_time_positive:
  assumes "ok_time t" and "\<And>f. t \<noteq> Function f"
  shows "positive (ToNumber (default_duration t))"
proof (cases t)
  case (Number n)
  with assms(1) show ?thesis by (cases n) (auto simp: default_duration_def)
next
  case (Function f)
  with assms(2) [of f] show ?thesis by simp
qed (simp add: default_duration_def)

lemma value_inv_pulse:
  assumes "value_inv w" and "ok_time t"
  shows "value_inv (pulse t cb w)"
proof -
  let ?time1 = "case t of Undefined \<Rightarrow> Number (Num 1000) | _ \<Rightarrow> t"
  let ?time = "case ?time1 of Function f \<Rightarrow> Number (Num 1000) | _ \<Rightarrow> ?time1"
  from assms(1) have H: "1 \<le> HIGH w" using device_ok_high [of w] by (simp add: value_inv_def)
  from assms(1) obtain x where x: "state_value w = Num x" "0 \<le> x" "x \<le> of_int (HIGH w)"
    by (cases "state_value w") (auto simp: value_inv_def device_ok_def)
  have tm: "ok_time ?time" "\<And>f. ?time \<noteq> Function f"
    using assms(2) by (cases t; simp)+
  then have p: "positive (ToNumber (default_duration ?time))"
    by (rule ok_time_positive)
  show ?thesis
    unfolding pulse_def Let_def
    apply (rule value_inv_animate [OF assms(1)])
    subgoal using x H by simp
    subgoal by simp
    subgoal using tm(1) by simp
    subgoal using p by simp
    done
qed

lemma value_inv_fade:
  assumes "value_inv w" and "in_range v (LOW w) (HIGH w)" and "ok_time t"
  shows "value_inv (fade v t cb w)"
proof -
  let ?time1 = "case t of Undefined \<Rightarrow> Number (Num 1000) | _ \<Rightarrow> t"
  let ?time = "case ?time1 of Function f \<Rightarrow> Number (Num 1000) | _ \<Rightarrow> ?time1"
  from assms(1) have L: "LOW w = 0" by (simp add: value_inv_def device_ok_def)
  from assms(1) obtain x where x: "state_value w = Num x" "0 \<le> x" "x \<le> of_int (HIGH w)"
    by (cases "state_value w") (auto simp: value_inv_def device_ok_def)
  from assms(2) L obtain y where y: "v = Num y" "0 \<le> y" "y \<le> of_int (HIGH w)"
    by (cases v) auto
  have tm: "ok_time ?time" "\<And>f. ?time \<noteq> Function f"
    using assms(3) by (cases t; simp)+
  then have p: "positive (ToNumber (default_duration ?time))"
    by (rule ok_time_positive)
  show ?thesis
    unfolding fade_def Let_def
    apply (rule value_inv_animate [OF assms(1)])
    subgoal using x y by simp
    subgoal by simp
    subgoal by simp
    subgoal using p by simp
    done
qed

lemma ok_time_default:
  "ok_time t \<Longrightarrow> ok_time (case t of Undefined \<Rightarrow> Number (Num 1000) | _ \<Rightarrow> t)"
  by (cases t) simp_all

lemma value_inv_fadeIn:
  assumes "value_inv w" and "ok_time t"
  shows "value_inv (fadeIn t cb w)"
  unfolding fadeIn_def using assms device_ok_high [of w]
  by (intro value_inv_fade ok_time_default) (auto simp: value_inv_def device_ok_def)

lemma value_inv_fadeOut:
  assumes "value_inv w" and "ok_time t"
  shows "value_inv (fadeOut t cb w)"
  unfolding fadeOut_def using assms device_ok_high [of w]
  by (intro value_inv_fade ok_time_default) (auto simp: value_inv_def device_ok_def)

lemma value_inv_update:
  assumes "value_inv w" and "timers w' = timers w" and "now w \<le> now w'"
    and "HIGH w' = HIGH w" and "LOW w' = LOW w"
    and "in_range (state_value w') (LOW w) (HIGH w)"
  shows "value_inv w'"
  using assms timers_ok_frame [of w w'] unfolding value_inv_def device_ok_def by auto

lemma convex_range:
  fixes a b p H :: rat
  assumes "0 \<le> a" and "a \<le> H" and "0 \<le> a + b" and "a + b \<le> H" and "0 \<le> p" and "p \<le> 1"
  shows "0 \<le> a + b * p \<and> a + b * p \<le> H"
proof -
  have e: "a + b * p = (1 - p) * a + p * (a + b)"
    by (simp add: algebra_simps)
  from assms(6) have q: "0 \<le> 1 - p" by simp
  have "0 \<le> (1 - p) * a" using q assms(1) by (rule mult_nonneg_nonneg)
  moreover have "0 \<le> p * (a + b)" using assms(5,3) by (rule mult_nonneg_nonneg)
  ultimately have lo: "0 \<le> a + b * p" unfolding e by simp
  have "(1 - p) * a \<le> (1 - p) * H" using assms(2) q by (rule mult_left_mono)
  moreover have "p * (a + b) \<le> p * H" using assms(4,5) by (rule mult_left_mono)
  ultimately have "(1 - p) * a + p * (a + b) \<le> (1 - p) * H + p * H" by (rule add_mono)
  also have "\<dots> = H" by (simp add: algebra_simps)
  finally have "a + b * p \<le> H" unfolding e .
  with lo show ?thesis by simp
qed

lemma scale_range:
  fixes u p H :: rat
  assumes "0 \<le> u" and "u \<le> H" and "0 \<le> p" and "p \<le> 1"
  shows "0 \<le> u * p \<and> u * p \<le> H"
proof -
  from assms(1,3) have "0 \<le> u * p" by (rule mult_nonneg_nonneg)
  moreover from assms(4,1) have "u * p \<le> u" by (rule mult_left_le)
  ultimately show ?thesis using assms(2) by simp
qed

lemma value_inv_apply_step:
  assumes "value_inv w" and "ok_step (HIGH w) st" and "0 \<le> p" and "p \<le> 1"
  shows "value_inv (apply_step st (Num p) w)"
proof -
  from assms(1) have L: "LOW w = 0" by (simp add: value_inv_def device_ok_def)
  from assms(1) obtain k where k: "HIGH w = 2 ^ k - 1" "1 \<le> k" "k \<le> 30"
    by (auto simp: value_inv_def device_ok_def)
  have "in_range (state_value (apply_step st (Num p) w)) (LOW w) (HIGH w)"
  proof (cases st)
    case (PulseStep un dir)
    with assms(2) obtain u where u: "un = Num u" "0 \<le> u" "u \<le> of_int (HIGH w)"
      by (cases un) auto
    from u(2,3) assms(3,4) have r: "0 \<le> u * p \<and> u * p \<le> of_int (HIGH w)"
      by (rule scale_range)
    show ?thesis
    proof (cases "dir = - 1")
      case True
      from r have r0: "0 \<le> u * p" and r1: "u * p \<le> of_int (HIGH w)" by simp_all
      from k r0 r1 have x: "js_xor (Num (u * p)) (Num (of_int (HIGH w))) =
          Num (of_int (HIGH w - \<lfloor>u * p\<rfloor>))"
        by (rule js_xor_mask)
      from r have "\<lfloor>u * p\<rfloor> \<le> \<lfloor>rat_of_int (HIGH w)\<rfloor>" by (intro floor_mono) simp
      then have f: "0 \<le> \<lfloor>u * p\<rfloor>" "\<lfloor>u * p\<rfloor> \<le> HIGH w" using r by simp_all
      from True PulseStep u(1) have "state_value (apply_step st (Num p) w) =
          Num (of_int (HIGH w - \<lfloor>u * p\<rfloor>))"
        by (simp add: Let_def x)
      with f L show ?thesis by simp
    next
      case False
      with PulseStep u(1) have "state_value (apply_step st (Num p) w) = Num (u * p)"
        by (simp add: Let_def)
      with r L show ?thesis by simp
    qed
  next
    case (FadeStep pn un)
    with assms(2) obtain a b where ab: "pn = Num a" "un = Num b" "0 \<le> a"
      "a \<le> of_int (HIGH w)" "0 \<le> a + b" "a + b \<le> of_int (HIGH w)"
      by (cases pn; cases un) auto
    from ab(3-6) assms(3,4) have "0 \<le> a + b * p \<and> a + b * p \<le> of_int (HIGH w)"
      by (rule convex_range)
    moreover from FadeStep ab(1,2) have "state_value (apply_step st (Num p) w) = Num (a + b * p)"
      by (simp add: Let_def)
    ultimately show ?thesis using L by simp
  qed
  then show ?thesis
    by (intro value_inv_update [OF assms(1)]) simp_all
qed

lemma animate_tick_min:
  assumes "0 < D"
  shows "animate_tick start st (\<lambda>val. val) c (Num D) w =
     (if min ((of_nat (now w) - of_nat start) / D) 1 = 1
      then (case c of
              Some f \<Rightarrow> run_complete f
                (apply_step st (Num (min ((of_nat (now w) - of_nat start) / D) 1)) w)
            | None \<Rightarrow> apply_step st (Num (min ((of_nat (now w) - of_nat start) / D) 1)) w)
      else apply_step st (Num (min ((of_nat (now w) - of_nat start) / D) 1)) w)"
proof -
  from assms have D0: "D \<noteq> 0" by simp
  show ?thesis
    unfolding animate_tick_def Let_def progress_min [OF D0] by simp
qed

lemma value_inv_run_complete:
  assumes "value_inv w" and "ok_complete (Some f)"
  shows "value_inv (run_complete f w)"
  using assms by (cases f) (simp_all add: value_inv_call_callback value_inv_pulse)

lemma value_inv_animate_tick:
  assumes "value_inv w" and "ok_timer w (AnimateTick start st df c du)"
  shows "value_inv (animate_tick start st df c du w)"
proof -
  from assms(2) obtain D where D: "du = Num D" "0 < D" by (cases du) auto
  from assms(2) have df: "df = (\<lambda>val. val)" and s: "start \<le> now w"
    and st: "ok_step (HIGH w) st" and c: "ok_complete c"
    by simp_all
  let ?p = "min ((of_nat (now w) - of_nat start) / D) 1"
  from s have "(0::rat) \<le> of_nat (now w) - of_nat start" by simp
  with D(2) have p0: "0 \<le> ?p" by simp
  have p1: "?p \<le> 1" by simp
  from assms(1) st p0 p1 have v: "value_inv (apply_step st (Num ?p) w)"
    by (rule value_inv_apply_step)
  show ?thesis
  proof (cases c)
    case None
    with v show ?thesis
      unfolding D(1) df animate_tick_min [OF D(2)] by (simp only: option.case if_cancel)
  next
    case (Some f)
    with c have "ok_complete (Some f)" by simp
    with v have "value_inv (run_complete f (apply_step st (Num ?p) w))"
      by (rule value_inv_run_complete)
    with v show ?thesis
      unfolding D(1) df animate_tick_min [OF D(2)] Some
      by (cases "?p = 1") (simp_all only: option.case if_True if_False simp_thms)
  qed
qed

lemma value_inv_fire:
  assumes "value_inv w"
  shows "value_inv (fire h w)"
proof (cases "timers w h")
  case None
  with assms show ?thesis by (simp add: fire_def)
next
  case (Some e)
  obtain cb ms where e: "e = (cb, ms)" by (cases e)
  from assms Some e have ok: "ok_timer w cb"
    unfolding value_inv_def timers_ok_def by blast
  show ?thesis
  proof (cases cb)
    case (BlinkTick x)
    with Some e assms show ?thesis
      by (simp add: fire_def blink_tick_def value_inv_call_callback value_inv_toggle)
  next
    case (AnimateTick start st df c du)
    with ok assms have "value_inv (animate_tick start st df c du w)"
      by (intro value_inv_animate_tick) simp_all
    with Some e AnimateTick show ?thesis by (simp add: fire_def)
  qed
qed

lemma stop_frame [simp]:
  "HIGH (stop w) = HIGH w" "LOW (stop w) = LOW w"
  by (simp_all add: stop_def clearInterval_def Let_def split: option.splits)

lemma blink_frame [simp]:
  "HIGH (blink d cb w) = HIGH w" "LOW (blink d cb w) = LOW w"
  by (simp_all add: blink_def setInterval_def Let_def)

lemma pulse_frame [simp]:
  "HIGH (pulse t cb w) = HIGH w" "LOW (pulse t cb w) = LOW w"
  by (simp_all add: pulse_def Let_def)

lemma fade_frame [simp]:
  "HIGH (fade v t cb w) = HIGH w" "LOW (fade v t cb w) = LOW w"
  by (simp_all add: fade_def Let_def)

lemma run_complete_frame [simp]:
  "HIGH (run_complete f w) = HIGH w" "LOW (run_complete f w) = LOW w"
  by (cases f; simp)+

lemma animate_tick_frame [simp]:
  "HIGH (animate_tick start st df c du w) = HIGH w"
  "LOW (animate_tick start st df c du w) = LOW w"
  by (simp_all add: animate_tick_def Let_def split: option.splits)

lemma fire_frame [simp]:
  "HIGH (fire h w) = HIGH w" "LOW (fire h w) = LOW w"
  by (simp_all add: fire_def blink_tick_def toggle_def on_def off_def
      split: option.splits prod.splits timer_callback.splits)

lemma exec_frame [simp]:
  "HIGH (exec c w) = HIGH w" "LOW (exec c w) = LOW w"
  by (cases c; simp add: on_def off_def toggle_def brightness_def fadeIn_def fadeOut_def)+

lemma value_inv_exec:
  assumes "value_inv w" and "ok_call (LOW w) (HIGH w) c"
  shows "value_inv (exec c w)"
proof (cases c)
  case (Wait d)
  with assms(1) show ?thesis using value_inv_wait [of w d] by simp
qed (use assms in \<open>simp_all add: value_inv_on value_inv_off value_inv_toggle value_inv_blink
    value_inv_brightness value_inv_pulse value_inv_fade value_inv_fadeIn value_inv_fadeOut
    value_inv_stop value_inv_fire\<close>)

lemma value_inv_run:
  assumes "value_inv w" and "list_all (ok_call (LOW w) (HIGH w)) cs"
  shows "value_inv (run cs w) \<and> LOW (run cs w) = LOW w \<and> HIGH (run cs w) = HIGH w"
  using assms
proof (induction cs arbitrary: w)
  case Nil
  then show ?case by simp
next
  case (Cons c cs)
  from Cons.prems have "value_inv (exec c w)"
    by (simp add: value_inv_exec)
  moreover from Cons.prems have "list_all (ok_call (LOW (exec c w)) (HIGH (exec c w))) cs"
    by simp
  ultimately have "value_inv (run cs (exec c w)) \<and> LOW (run cs (exec c w)) = LOW (exec c w) \<and>
      HIGH (run cs (exec c w)) = HIGH (exec c w)"
    by (rule Cons.IH)
  then show ?case by simp
qed

lemma HIGH_of_mask:
  assumes "case resolution of None \<Rightarrow> True | Some r \<Rightarrow> r \<le> 30"
  shows "\<exists>k. 1 \<le> k \<and> k \<le> 30 \<and> HIGH_of resolution = 2 ^ k - 1"
proof (cases resolution)
  case None
  then have "HIGH_of resolution = 2 ^ 1 - 1" by (simp add: HIGH_of_def)
  then show ?thesis by (intro exI [of _ 1]) simp
next
  case (Some r)
  show ?thesis
  proof (cases "r = 0")
    case True
    with Some have "HIGH_of resolution = 2 ^ 1 - 1" by (simp add: HIGH_of_def)
    then show ?thesis by (intro exI [of _ 1]) simp
  next
    case False
    from Some assms have r: "r \<le> 30" by simp
    then have "(2::int) ^ r \<le> 2 ^ 30" by (intro power_increasing) simp_all
    then have "wrap32 (2 ^ r) = 2 ^ r" by (intro wrap32_id) simp_all
    with r False Some have "HIGH_of resolution = 2 ^ r - 1"
      by (simp add: HIGH_of_def js_shl_one_def)
    with r False show ?thesis by (intro exI [of _ r]) simp
  qed
qed

lemma value_inv_constructor:
  assumes "Led_constructor io device (Some resolution) t0 = Inr w0"
    and "case resolution of None \<Rightarrow> True | Some r \<Rightarrow> r \<le> 30"
  shows "value_inv w0"
proof -
  from assms(1) have f: "LOW w0 = 0" "HIGH w0 = HIGH_of resolution" "state_value w0 = Num 0"
    "timers w0 = Map.empty"
    by (auto simp: Led_constructor_def split: sum.splits option.splits prod.splits)
  from assms(2) obtain k where k: "1 \<le> k" "k \<le> 30" "HIGH_of resolution = 2 ^ k - 1"
    using HIGH_of_mask by blast
  then have "1 \<le> HIGH_of resolution" using mask_bounds(1) [of "HIGH_of resolution" k] by simp
  with f k show ?thesis
    by (auto simp: value_inv_def device_ok_def timers_ok_def)
qed

text \<open>
  C3, as the code has it: \<open>write()\<close> clamps the value it hands to the provider, never
  the stored one. On a device built by the constructor on a provider that reports no
  resolution or one up to 30, after any sequence of method calls, clock advances and
  timer firings in which every brightness and every fade target lies within
  \<open>[LOW, HIGH]\<close> and no fade or pulse time is negative, the stored value is a number
  with \<open>LOW \<le> value \<le> HIGH\<close>; \<open>LOW\<close> and \<open>HIGH\<close> never change.
\<close>

theorem stored_value_in_range:
  assumes "Led_constructor io device (Some resolution) t0 = Inr w0"
    and "case resolution of None \<Rightarrow> True | Some r \<Rightarrow> r \<le> 30"
    and "list_all (ok_call (LOW w0) (HIGH w0)) cs"
  shows "in_range (state_value (run cs w0)) (LOW (run cs w0)) (HIGH (run cs w0)) \<and>
         LOW (run cs w0) = LOW w0 \<and> HIGH (run cs w0) = HIGH w0"
proof -
  from assms(1,2) have "value_inv w0" by (rule value_inv_constructor)
  from this assms(3) have "value_inv (run cs w0) \<and> LOW (run cs w0) = LOW w0 \<and>
      HIGH (run cs w0) = HIGH w0"
    by (rule value_inv_run)
  then show ?thesis by (auto simp: value_inv_def)
qed

text \<open>
  The witness for C3: an 8-bit device that is switched on, faded towards 100, ticked
  half-way, set pulsing, ticked at completion, set to brightness 7 and stopped.
\<close>

theorem stored_value_in_range_witness:
  "(case Led_constructor (IoPin (PinNumber (Num 14))) (Some Map.empty) (Some (Some 8)) 0 of
      Inl e \<Rightarrow> False
    | Inr w0 \<Rightarrow>
        list_all (ok_call (LOW w0) (HIGH w0))
          [On, Fade (Num 100) (Number (Num 100)) (Function 3), Wait 50, Tick 0,
           Pulse Undefined Undefined, Wait 1000, Tick 1, Brightness (Num 7), Stop] \<and>
        in_range
          (state_value (run
            [On, Fade (Num 100) (Number (Num 100)) (Function 3), Wait 50, Tick 0,
             Pulse Undefined Undefined, Wait 1000, Tick 1, Brightness (Num 7), Stop] w0))
          0 255)"
proof -
  let ?cs = "[On, Fade (Num 100) (Number (Num 100)) (Function 3), Wait 50, Tick 0,
             Pulse Undefined Undefined, Wait 1000, Tick 1, Brightness (Num 7), Stop]"
  let ?w0 = "\<lparr>state_sink = False, state_isRunning = False, state_value = Num 0,
     state_direction = 1, state_mode = None, state_interval = None, LOW = 0, HIGH = 255,
     io_written = [], timers = Map.empty, next_handle = 0, now = 0, called = []\<rparr>"
  have c: "Led_constructor (IoPin (PinNumber (Num 14))) (Some Map.empty) (Some (Some 8)) 0
      = Inr ?w0"
    by (simp add: Led_constructor_def HIGH_of_def js_shl_one_def wrap32_def)
  have r: "case Some (8::nat) of None \<Rightarrow> True | Some r \<Rightarrow> r \<le> 30"
    by simp
  have l: "list_all (ok_call (LOW ?w0) (HIGH ?w0)) ?cs"
    by simp
  from stored_value_in_range [OF c r l]
  have "in_range (state_value (run ?cs ?w0)) (LOW (run ?cs ?w0)) (HIGH (run ?cs ?w0))"
    and "LOW (run ?cs ?w0) = LOW ?w0" and "HIGH (run ?cs ?w0) = HIGH ?w0"
    by blast+
  then have i: "in_range (state_value (run ?cs ?w0)) 0 255"
    by (simp only: led.simps)
  from l i show ?thesis
    by (simp only: c sum.case simp_thms)
qed

text \<open>
  C3 as stated fails: on an 8-bit device, \<open>fade(300, 100)\<close> and the ten ticks of the
  10 ms timer up to 100 ms store 300, although \<open>write()\<close> has run on every tick and
  handed the provider nothing above 255; and after \<open>on()\<close>, \<open>brightness(300)\<close> stores
  300.
\<close>

theorem stored_value_leaves_range:
  "(case Led_constructor (IoPin (PinNumber (Num 14))) (Some Map.empty) (Some (Some 8)) 0 of
      Inl e \<Rightarrow> False
    | Inr w0 \<Rightarrow>
        (let w = run [Fade (Num 300) (Number (Num 100)) Undefined,
                      Wait 10, Tick 0, Wait 10, Tick 0, Wait 10, Tick 0, Wait 10, Tick 0,
                      Wait 10, Tick 0, Wait 10, Tick 0, Wait 10, Tick 0, Wait 10, Tick 0,
                      Wait 10, Tick 0, Wait 10, Tick 0] w0
         in LOW w = 0 \<and> HIGH w = 255 \<and>
            io_written w = [Num 30, Num 60, Num 90, Num 120, Num 150, Num 180, Num 210,
                            Num 240, Num 255, Num 255] \<and>
            state_value w = Num 300 \<and> \<not> in_range (state_value w) (LOW w) (HIGH w)) \<and>
        (let w = run [On, Brightness (Num 300)] w0
         in io_written w = [Num 255, Num 300] \<and> state_value w = Num 300 \<and>
            \<not> in_range (state_value w) (LOW w) (HIGH w)))"
  by (simp add: Led_constructor_def HIGH_of_def js_shl_one_def fade_def animate_def
      default_duration_def default_delta_def setInterval_def fire_def animate_tick_def
      led_write_def constrain_def js_or_zero_def trunc_def wrap32_def on_def brightness_def
      Let_def floor_eq_iff)

section \<open>blink and its duration\<close>

text \<open>
  C5, as the code has it: \<open>blink\<close> validates nothing. For every duration and callback it
  returns normally, sets \<open>isRunning\<close>, and registers one repeating timer whose interval
  is the number given, whatever its sign (100 when the duration is \<open>undefined\<close> or a
  function, the function then being the callback).
\<close>

theorem blink_registers_timer:
  "timers (blink duration callback w) (next_handle w) =
     Some (BlinkTick (case duration of Function f \<Rightarrow> duration | _ \<Rightarrow> callback),
           (case duration of Number n \<Rightarrow> duration | _ \<Rightarrow> Number (Num 100))) \<and>
   state_interval (blink duration callback w) = Some (next_handle w) \<and>
   state_isRunning (blink duration callback w)"
  by (cases duration)
    (simp_all add: blink_def stop_def setInterval_def clearInterval_def Let_def
      split: option.splits)

text \<open>
  C5 as stated fails: \<open>blink(-5)\<close> and \<open>blink(0)\<close> on a fresh device register timers
  with the intervals -5 and 0.
\<close>

theorem blink_negative_duration:
  "(case Led_constructor (IoPin (PinNumber (Num 14))) (Some Map.empty) (Some None) 0 of
      Inl e \<Rightarrow> False
    | Inr w0 \<Rightarrow>
        timers (blink (Number (Num (- 5))) Undefined w0) 0 =
          Some (BlinkTick Undefined, Number (Num (- 5))) \<and>
        timers (blink (Number (Num 0)) Undefined w0) 0 =
          Some (BlinkTick Undefined, Number (Num 0)))"
  by (simp add: Led_constructor_def blink_def stop_def setInterval_def Let_def)

section \<open>Where the code departs from its documentation\<close>

text \<open>
  C1: the tick of \<open>animate\<close> never clears the interval at \<open>progress = 1\<close>, and the
  completion function of \<open>fade\<close> does not stop the device. On a device with
  \<open>HIGH = 1\<close>, \<open>fade(HIGH, 100, f)\<close> followed by the twelve ticks of the 10 ms
  timer up to 120 ms calls \<open>f\<close> three times (at 100, 110 and 120 ms) and the step on
  every tick; the timer stays live and \<open>isRunning\<close> stays true.
\<close>

theorem fade_complete_fires_again:
  "(case Led_constructor (IoPin (PinNumber (Num 14))) (Some Map.empty) (Some None) 0 of
      Inl e \<Rightarrow> False
    | Inr w0 \<Rightarrow>
        (let w = run [Fade (Num 1) (Number (Num 100)) (Function 7),
                      Wait 10, Tick 0, Wait 10, Tick 0, Wait 10, Tick 0, Wait 10, Tick 0,
                      Wait 10, Tick 0, Wait 10, Tick 0, Wait 10, Tick 0, Wait 10, Tick 0,
                      Wait 10, Tick 0, Wait 10, Tick 0, Wait 10, Tick 0, Wait 10, Tick 0] w0
         in called w = [7, 7, 7] \<and>
            io_written w = [Num 0, Num 0, Num 0, Num 0, Num 0, Num 0, Num 0, Num 0, Num 0,
                            Num 1, Num 1, Num 1] \<and>
            state_value w = Num 1 \<and>
            state_isRunning w \<and> state_interval w = Some 0 \<and> timers w 0 \<noteq> None))"
  by (simp add: Led_constructor_def HIGH_of_def fade_def animate_def default_duration_def
      default_delta_def setInterval_def fire_def animate_tick_def led_write_def constrain_def
      js_or_zero_def trunc_def wrap32_def Let_def floor_eq_iff)

text \<open>
  C2: \<open>brightness\<close> calls the provider's \<open>write\<close> directly. On a sink device with
  an 8-bit resolution, \<open>on()\<close> hands the provider \<open>HIGH - HIGH = 0\<close>, while
  \<open>brightness(255)\<close> hands it 255 (not inverted), \<open>brightness(300)\<close> hands it 300
  (not clamped) and \<open>brightness(0.5)\<close> hands it 0.5 (not an integer).
\<close>

theorem brightness_bypasses_write:
  "(case Led_constructor (IoPin (PinNumber (Num 14))) (Some [''sink'' \<mapsto> True]) (Some (Some 8)) 0 of
      Inl e \<Rightarrow> False
    | Inr w0 \<Rightarrow>
        HIGH w0 = 255 \<and> state_sink w0 \<and>
        io_written (run [On] w0) = [Num 0] \<and>
        io_written (run [Brightness (Num 255)] w0) = [Num 255] \<and>
        io_written (run [Brightness (Num 300)] w0) = [Num 300] \<and>
        io_written (run [Brightness (Num (1 / 2))] w0) = [Num (1 / 2)])"
  by (simp add: Led_constructor_def HIGH_of_def js_shl_one_def on_def brightness_def
      led_write_def constrain_def js_or_zero_def trunc_def wrap32_def Let_def)

text \<open>
  C4: the constructor reads \<open>device.sink\<close> from its raw second argument, not from the
  normalised \<open>deviceOpts\<close>. With the device options omitted, construction with a bare
  pin fails with a TypeError, whatever the provider.
\<close>

theorem constructor_without_device_options:
  "Led_constructor (IoPin p) None (Some resolution) t0 = Inl TypeError"
  by (simp add: Led_constructor_def)

end
